theory Spec2Isabelle
  imports Main "HOL-Library.Sublist"
begin

section \<open>Python values\<close>

text \<open>
  A Python \<open>str\<close> is a sequence of Unicode code points: \<open>len\<close>, slicing and \<open>in\<close> count
  code points, and the program's literals lie outside ASCII. A string is therefore a list
  of code points; \<open>str\<close> embeds an ASCII literal.
\<close>

type_synonym pystr = "nat list"

definition str :: "string \<Rightarrow> pystr" where
  "str cs = map of_char cs"

text \<open>
  The values \<open>json.load\<close> and \<open>response.json()\<close> produce. \<open>JNull\<close> is Python's \<open>None\<close>,
  \<open>JObj\<close> a \<open>dict\<close> in insertion order (keys are strings) and \<open>JArr\<close> a \<open>list\<close>. Numbers
  are integers: no operation of the program computes with a number.
\<close>

datatype json =
    JNull
  | JBool bool
  | JInt int
  | JStr pystr
  | JArr "json list"
  | JObj "(pystr \<times> json) list"

datatype error =
    AttributeError
  | TypeError
  | KeyError
  | IndexError
  | ValueError
  | JSONDecodeError
  | FileNotFoundError
  | UnboundLocalError
  | UnicodeEncodeError

text \<open>Sequencing of computations that may raise.\<close>

fun and_then :: "error + 'a \<Rightarrow> ('a \<Rightarrow> error + 'b) \<Rightarrow> error + 'b" where
  "and_then (Inl e) f = Inl e"
| "and_then (Inr x) f = f x"

text \<open>A statement that may raise, in a state, followed by \<open>return x\<close>.\<close>

fun then_return :: "(error + unit) \<times> 's \<Rightarrow> 'a \<Rightarrow> (error + 'a) \<times> 's" where
  "then_return (Inl e, s) x = (Inl e, s)"
| "then_return (Inr u, s) x = (Inr x, s)"

text \<open>\<open>bool(v)\<close>: the truth value of \<open>v\<close> in a condition.\<close>

fun truthy :: "json \<Rightarrow> bool" where
  "truthy JNull = False"
| "truthy (JBool b) = b"
| "truthy (JInt i) = (i \<noteq> 0)"
| "truthy (JStr s) = (s \<noteq> [])"
| "truthy (JArr xs) = (xs \<noteq> [])"
| "truthy (JObj kvs) = (kvs \<noteq> [])"

text \<open>\<open>p in s\<close> on two strings: \<open>p\<close> occurs in \<open>s\<close> as a contiguous substring.\<close>

fun substr_in :: "pystr \<Rightarrow> pystr \<Rightarrow> bool" where
  "substr_in p [] = (p = [])"
| "substr_in p (c # cs) = (prefix p (c # cs) \<or> substr_in p cs)"

text \<open>\<open>k in v\<close> for a string \<open>k\<close>: a key of a dict, an element of a list, a substring.\<close>

fun py_in :: "pystr \<Rightarrow> json \<Rightarrow> error + bool" where
  "py_in k (JObj kvs) = Inr (k \<in> set (map fst kvs))"
| "py_in k (JArr xs) = Inr (JStr k \<in> set xs)"
| "py_in k (JStr s) = Inr (substr_in k s)"
| "py_in k _ = Inl TypeError"

text \<open>\<open>v[k]\<close> for a string \<open>k\<close>: only a dict can be indexed by a string.\<close>

fun getitem :: "json \<Rightarrow> pystr \<Rightarrow> error + json" where
  "getitem (JObj kvs) k = (case map_of kvs k of None \<Rightarrow> Inl KeyError | Some v \<Rightarrow> Inr v)"
| "getitem _ k = Inl TypeError"

text \<open>\<open>v[0]\<close>: a dict decoded from JSON has no key \<open>0\<close>.\<close>

fun getitem0 :: "json \<Rightarrow> error + json" where
  "getitem0 (JArr xs) = (case xs of [] \<Rightarrow> Inl IndexError | x # _ \<Rightarrow> Inr x)"
| "getitem0 (JStr s) = (case s of [] \<Rightarrow> Inl IndexError | c # _ \<Rightarrow> Inr (JStr [c]))"
| "getitem0 (JObj kvs) = Inl KeyError"
| "getitem0 _ = Inl TypeError"

text \<open>\<open>d[k] = v\<close> on a dict: an existing key keeps its place, a new one goes last.\<close>

fun dict_set :: "pystr \<Rightarrow> json \<Rightarrow> (pystr \<times> json) list \<Rightarrow> (pystr \<times> json) list" where
  "dict_set k v [] = [(k, v)]"
| "dict_set k v ((k', v') # kvs) =
     (if k' = k then (k, v) # kvs else (k', v') # dict_set k v kvs)"

text \<open>\<open>v[k] = x\<close> for a string \<open>k\<close>: a list takes integer indices only, the rest takes none.\<close>

fun setitem :: "json \<Rightarrow> pystr \<Rightarrow> json \<Rightarrow> error + json" where
  "setitem (JObj kvs) k x = Inr (JObj (dict_set k x kvs))"
| "setitem _ k x = Inl TypeError"

text \<open>\<open>for x in v\<close>: the elements of a list, the keys of a dict, the characters of a string.\<close>

fun py_iter :: "json \<Rightarrow> error + json list" where
  "py_iter (JArr xs) = Inr xs"
| "py_iter (JObj kvs) = Inr (map (\<lambda>kv. JStr (fst kv)) kvs)"
| "py_iter (JStr s) = Inr (map (\<lambda>c. JStr [c]) s)"
| "py_iter _ = Inl TypeError"

text \<open>\<open>str.isspace\<close> of one character, and \<open>str.strip()\<close>.\<close>

definition isspace :: "nat \<Rightarrow> bool" where
  "isspace c \<longleftrightarrow>
     (9 \<le> c \<and> c \<le> 13) \<or> (28 \<le> c \<and> c \<le> 32) \<or> c = 133 \<or> c = 160 \<or> c = 5760 \<or>
     (8192 \<le> c \<and> c \<le> 8202) \<or> c = 8232 \<or> c = 8233 \<or> c = 8239 \<or> c = 8287 \<or> c = 12288"

definition strip :: "pystr \<Rightarrow> pystr" where
  "strip s = rev (dropWhile isspace (rev (dropWhile isspace s)))"

text \<open>\<open>s.find(c)\<close> and \<open>s.rfind(c)\<close> for one character: the index, or \<open>-1\<close>.\<close>

fun str_find :: "nat \<Rightarrow> pystr \<Rightarrow> int" where
  "str_find c [] = - 1"
| "str_find c (x # xs) =
     (if x = c then 0 else (let i = str_find c xs in if i < 0 then - 1 else i + 1))"

definition str_rfind :: "nat \<Rightarrow> pystr \<Rightarrow> int" where
  "str_rfind c s =
     (let i = str_find c (rev s) in if i < 0 then - 1 else int (length s) - 1 - i)"

text \<open>\<open>s[i:j]\<close> for \<open>0 \<le> i\<close> and \<open>0 \<le> j\<close>.\<close>

definition slice :: "pystr \<Rightarrow> int \<Rightarrow> int \<Rightarrow> pystr" where
  "slice s i j = take (nat j - nat i) (drop (nat i) s)"

section \<open>The environment and the state\<close>

text \<open>
  What the program takes from its libraries and from the network:
  \<^item> \<open>json_loads t\<close> is \<open>json.loads(t)\<close>, \<open>None\<close> where it raises \<open>JSONDecodeError\<close>;
  \<^item> \<open>json_dumps v\<close> is \<open>json.dumps(v, ensure_ascii=False, indent=2)\<close>;
  \<^item> \<open>json_dump_partial v\<close> is the text \<open>json.dump(v, f, ensure_ascii=False, indent=2)\<close>
    has written when a write to \<open>f\<close> raises: \<open>json.dump\<close> writes \<open>v\<close> piece by piece, and
    the pieces before the one that cannot be encoded stay in the file;
  \<^item> \<open>requests_post n p\<close> is the decoded body the model API returns to the prompt \<open>p\<close>
    as its \<open>n\<close>-th request, \<open>None\<close> where the request, its status or its decoding fails;
  \<^item> \<open>str_lower\<close> is \<open>str.lower\<close>.
\<close>

record env =
  json_loads :: "pystr \<Rightarrow> json option"
  json_dumps :: "json \<Rightarrow> pystr"
  json_dump_partial :: "json \<Rightarrow> pystr"
  requests_post :: "nat \<Rightarrow> pystr \<Rightarrow> json option"
  str_lower :: "pystr \<Rightarrow> pystr"

datatype wx_call = AddListenChat pystr | RemoveListenChat pystr

text \<open>
  The monitor instance and what it reaches: the files (a missing file is \<open>None\<close>), a log of
  the writes, the prompts sent to the model API, the calls made to the chat client, the
  configuration held in memory and the active listeners. Opening a file for writing and
  the calls to the chat client are taken to return; everything else that can raise is a
  branch of the model.
\<close>

record monitor =
  files :: "string \<rightharpoonup> pystr"
  writes :: "(string \<times> pystr) list"
  calls :: "pystr list"
  wx :: "wx_call list"
  config :: json
  active_listeners :: "pystr \<rightharpoonup> bool"

definition CONFIG_FILE :: string where
  "CONFIG_FILE = ''data/config.json''"


text \<open>
  The files are opened with \<open>encoding='utf-8'\<close>, and \<open>ensure_ascii=False\<close> writes the
  characters of a string as they are. A code point from \<open>U+D800\<close> to \<open>U+DFFF\<close> has no
  UTF-8 encoding, so writing a value that holds one, in a string or in a key, raises
  \<open>UnicodeEncodeError\<close>; every other value is written in full.
\<close>

definition surrogate :: "nat \<Rightarrow> bool" where
  "surrogate c \<longleftrightarrow> 55296 \<le> c \<and> c \<le> 57343"

fun surrogate_free :: "json \<Rightarrow> bool"
  and surrogate_free_items :: "json list \<Rightarrow> bool"
  and surrogate_free_members :: "(pystr \<times> json) list \<Rightarrow> bool"
where
  "surrogate_free (JStr s) = (\<not> list_ex surrogate s)"
| "surrogate_free (JArr xs) = surrogate_free_items xs"
| "surrogate_free (JObj kvs) = surrogate_free_members kvs"
| "surrogate_free JNull = True"
| "surrogate_free (JBool b) = True"
| "surrogate_free (JInt i) = True"
| "surrogate_free_items [] = True"
| "surrogate_free_items (x # xs) = (surrogate_free x \<and> surrogate_free_items xs)"
| "surrogate_free_members [] = True"
| "surrogate_free_members ((k, v) # kvs) =
     (\<not> list_ex surrogate k \<and> surrogate_free v \<and> surrogate_free_members kvs)"

text \<open>
  \<open>open(path, 'w')\<close> followed by \<open>json.dump(v, f, ensure_ascii=False, indent=2)\<close>, where
  the write returns. The notification store is rewritten with what was read from its own
  file, which the program wrote in UTF-8 before; its operations use this write.
\<close>

definition write_json :: "env \<Rightarrow> string \<Rightarrow> json \<Rightarrow> monitor \<Rightarrow> monitor" where
  "write_json E path v m =
     m\<lparr>files := (files m)(path \<mapsto> json_dumps E v),
       writes := writes m @ [(path, json_dumps E v)]\<rparr>"

text \<open>
  The same two statements on any value: the write that raises leaves in the file what
  was written before the exception. The configuration is written this way, since the
  names of its groups come from requests.
\<close>

definition dump_json ::
  "env \<Rightarrow> string \<Rightarrow> json \<Rightarrow> monitor \<Rightarrow> (error + unit) \<times> monitor" where
  "dump_json E path v m =
     (if surrogate_free v then (Inr (), write_json E path v m)
      else
        (Inl UnicodeEncodeError,
         m\<lparr>files := (files m)(path \<mapsto> json_dump_partial E v),
           writes := writes m @ [(path, json_dump_partial E v)]\<rparr>))"

text \<open>\<open>open(path, 'r')\<close> followed by \<open>json.load(f)\<close>.\<close>

definition read_json :: "env \<Rightarrow> string \<Rightarrow> monitor \<Rightarrow> error + json" where
  "read_json E path m =
     (case files m path of
        None \<Rightarrow> Inl FileNotFoundError
      | Some text \<Rightarrow>
          (case json_loads E text of None \<Rightarrow> Inl JSONDecodeError | Some v \<Rightarrow> Inr v))"

section \<open>The classifier\<close>

definition call_model_api :: "env \<Rightarrow> pystr \<Rightarrow> monitor \<Rightarrow> json \<times> monitor" where
  "call_model_api E prompt m =
     ((case requests_post E (length (calls m)) prompt of None \<Rightarrow> JNull | Some body \<Rightarrow> body),
      m\<lparr>calls := calls m @ [prompt]\<rparr>)"

definition analyze_with_model :: "env \<Rightarrow> pystr \<Rightarrow> monitor \<Rightarrow> (error + json) \<times> monitor" where
  "analyze_with_model E prompt m =
     (let (result, m') = call_model_api E prompt m in
      (if truthy result then
         and_then (py_in (str ''choices'') result) (\<lambda>found.
           if found then
             and_then (getitem result (str ''choices'')) (\<lambda>choices.
             and_then (getitem0 choices) (\<lambda>choice.
             and_then (getitem choice (str ''message'')) (\<lambda>message.
               getitem message (str ''content''))))
           else Inr (JStr []))
       else Inr (JStr []),
       m'))"

text \<open>\<open>any(keyword in content for keyword in keywords)\<close>: stops at the first hit.\<close>

fun any_keyword_in :: "json list \<Rightarrow> pystr \<Rightarrow> error + bool" where
  "any_keyword_in [] content = Inr False"
| "any_keyword_in (JStr k # ks) content =
     (if substr_in k content then Inr True else any_keyword_in ks content)"
| "any_keyword_in (_ # ks) content = Inl TypeError"

text \<open>\<open>config.get('keywords', [])\<close>: only a dict has \<open>get\<close>.\<close>

fun get_keywords :: "json \<Rightarrow> error + json" where
  "get_keywords (JObj kvs) =
     (case map_of kvs (str ''keywords'') of None \<Rightarrow> Inr (JArr []) | Some v \<Rightarrow> Inr v)"
| "get_keywords _ = Inl AttributeError"

definition affirmative :: pystr where
  "affirmative = [26159]"

definition is_notification_prompt :: "pystr \<Rightarrow> pystr" where
  "is_notification_prompt content =
     [35831, 20005, 26684, 21028, 26029, 20197, 19979, 28040, 24687, 26159, 21542, 20026,
      37325, 35201, 36890, 30693, 65288, 22914, 27963, 21160, 36890, 30693, 12289, 32039,
      24613, 36890, 30693, 12289, 37325, 35201, 25552, 37266, 31561, 65289, 65292, 21482,
      38656, 22238, 31572, 26159, 25110, 21542, 58, 10] @ content"

text \<open>\<open>"..." in response.strip()\<close>: only a string has \<open>strip\<close>.\<close>

fun reply_affirms :: "json \<Rightarrow> error + bool" where
  "reply_affirms (JStr r) = Inr (substr_in affirmative (strip r))"
| "reply_affirms _ = Inl AttributeError"

definition is_notification :: "env \<Rightarrow> pystr \<Rightarrow> monitor \<Rightarrow> (error + bool) \<times> monitor" where
  "is_notification E content m =
     (case and_then (get_keywords (config m)) (\<lambda>keywords.
           and_then (py_iter keywords) (\<lambda>ks. any_keyword_in ks content)) of
        Inl e \<Rightarrow> (Inl e, m)
      | Inr has_keyword \<Rightarrow>
          if has_keyword \<or> length content > 20 then
            (let (response, m') = analyze_with_model E (is_notification_prompt content) m in
             (and_then response reply_affirms, m'))
          else (Inr False, m))"

section \<open>The extractor\<close>

definition extract_prompt :: "pystr \<Rightarrow> pystr" where
  "extract_prompt content =
     [35831, 20005, 26684, 20174, 20197, 19979, 36890, 30693, 20013, 25552, 21462, 20851,
      38190, 20449, 24687, 65292, 36820, 22238, 35268, 33539, 30340, 74, 83, 79, 78, 26684,
      24335, 65292, 30830, 20445, 25152, 26377, 23646, 24615, 21517, 29992, 21452, 24341,
      21495, 21253, 22260, 65306, 10,
      32, 32, 32, 32, 32, 32, 32, 32, 123, 10,
      32, 32, 32, 32, 32, 32, 32, 32, 32, 32, 32, 32,
      34, 116, 105, 116, 108, 101, 34, 58, 32, 34, 36890, 30693, 26631, 39064, 34, 44, 10,
      32, 32, 32, 32, 32, 32, 32, 32, 32, 32, 32, 32,
      34, 116, 105, 109, 101, 34, 58, 32, 34, 26102, 38388, 20449, 24687, 34, 44, 10,
      32, 32, 32, 32, 32, 32, 32, 32, 32, 32, 32, 32,
      34, 108, 111, 99, 97, 116, 105, 111, 110, 34, 58, 32, 34, 22320, 28857, 20449, 24687,
      34, 44, 10,
      32, 32, 32, 32, 32, 32, 32, 32, 32, 32, 32, 32,
      34, 99, 111, 110, 116, 101, 110, 116, 34, 58, 32, 34, 20027, 35201, 20869, 23481,
      25688, 35201, 34, 44, 10,
      32, 32, 32, 32, 32, 32, 32, 32, 32, 32, 32, 32,
      34, 97, 99, 116, 105, 111, 110, 34, 58, 32, 34, 38656, 35201, 37319, 21462, 30340,
      34892, 21160, 34, 44, 10,
      32, 32, 32, 32, 32, 32, 32, 32, 32, 32, 32, 32,
      34, 105, 115, 95, 117, 114, 103, 101, 110, 116, 34, 58, 32, 102, 97, 108, 115, 101, 10,
      32, 32, 32, 32, 32, 32, 32, 32, 125, 10,
      10,
      32, 32, 32, 32, 32, 32, 32, 32, 36890, 30693, 20869, 23481, 65306, 10,
      32, 32, 32, 32, 32, 32, 32, 32] @ content"

definition unknown_title :: pystr where
  "unknown_title = [26410, 30693, 36890, 30693]"

definition default_items :: "pystr \<Rightarrow> (pystr \<times> json) list" where
  "default_items content =
     [(str ''title'', JStr unknown_title),
      (str ''time'', JStr []),
      (str ''location'', JStr []),
      (str ''content'', JStr (take 200 content)),
      (str ''action'', JStr []),
      (str ''is_urgent'', JBool False)]"

definition default_info :: "pystr \<Rightarrow> json" where
  "default_info content = JObj (default_items content)"

text \<open>
  \<open>json.load(fp)\<close> reads \<open>fp.read()\<close>. The extractor hands it the model's reply, and no
  value the reply can be (a string, a number, a list, a dict, \<open>None\<close>) has an attribute
  \<open>read\<close>.
\<close>

definition json_load :: "json \<Rightarrow> error + json" where
  "json_load fp = Inl AttributeError"

text \<open>
  \<open>json.loads(response)\<close> and, where that raises \<open>JSONDecodeError\<close>, the decoding of the
  text between the first \<open>{\<close> and the last \<open>}\<close>. \<open>json.loads\<close> takes a string only.
\<close>

fun parse_response :: "env \<Rightarrow> json \<Rightarrow> error + json" where
  "parse_response E (JStr response) =
     (case json_loads E response of
        Some info \<Rightarrow> Inr info
      | None \<Rightarrow>
          (let start = str_find 123 response; stop = str_rfind 125 response + 1 in
           if start \<ge> 0 \<and> stop > start then
             (case json_loads E (slice response start stop) of
                Some info \<Rightarrow> Inr info
              | None \<Rightarrow> Inl JSONDecodeError)
           else Inl ValueError))"
| "parse_response E _ = Inl TypeError"

text \<open>\<open>info[key].lower() in ('true', ..., 'yes')\<close>.\<close>

definition urgent_word :: "env \<Rightarrow> pystr \<Rightarrow> bool" where
  "urgent_word E t \<longleftrightarrow>
     str_lower E t = str ''true'' \<or> str_lower E t = affirmative \<or> str_lower E t = str ''yes''"

text \<open>The loop \<open>for key in default_info\<close> over the items of the default record.\<close>

fun backfill :: "env \<Rightarrow> (pystr \<times> json) list \<Rightarrow> json \<Rightarrow> error + json" where
  "backfill E [] info = Inr info"
| "backfill E ((key, dflt) # rest) info =
     and_then (py_in key info) (\<lambda>present.
     and_then (if present then Inr info else setitem info key dflt) (\<lambda>info1.
     and_then
       (if key = str ''is_urgent'' then
          and_then (getitem info1 key) (\<lambda>v.
            case v of
              JStr t \<Rightarrow> setitem info1 key (JBool (urgent_word E t))
            | _ \<Rightarrow> Inr info1)
        else Inr info1) (\<lambda>info2.
     backfill E rest info2)))"

text \<open>
  The body of the \<open>try\<close> after the reply has been bound, and the whole function. An
  exception in the body is caught and gives the default record. An exception of
  \<open>analyze_with_model\<close> leaves \<open>response\<close> unbound, and the handler, which prints it,
  raises in its turn.
\<close>

definition extract_body :: "env \<Rightarrow> pystr \<Rightarrow> json \<Rightarrow> error + json" where
  "extract_body E content response =
     and_then (json_load response) (\<lambda>printed.
     and_then (parse_response E response) (\<lambda>info.
     backfill E (default_items content) info))"

definition extract_notification_info ::
  "env \<Rightarrow> pystr \<Rightarrow> monitor \<Rightarrow> (error + json) \<times> monitor" where
  "extract_notification_info E content m =
     (let (response, m') = analyze_with_model E (extract_prompt content) m in
      (case response of
         Inl e \<Rightarrow> Inl UnboundLocalError
       | Inr r \<Rightarrow>
           (case extract_body E content r of
              Inl e \<Rightarrow> Inr (default_info content)
            | Inr info \<Rightarrow> Inr info),
       m'))"

section \<open>The configuration store\<close>

definition default_config :: json where
  "default_config =
     JObj [(str ''target_groups'', JArr []),
           (str ''keywords'',
              JArr [JStr [36890, 30693], JStr [37325, 35201], JStr [32039, 24613],
                    JStr [25552, 37266], JStr [24517, 30475]]),
           (str ''enable_alert'', JBool True)]"

text \<open>
  \<open>save_config(config=None)\<close>: the argument \<open>None\<close>, which is \<open>JNull\<close>, stands for
  \<open>self.config\<close>. An exception of the write leaves the function.
\<close>

definition save_config :: "env \<Rightarrow> json \<Rightarrow> monitor \<Rightarrow> (error + unit) \<times> monitor" where
  "save_config E cfg m = dump_json E CONFIG_FILE (if cfg = JNull then config m else cfg) m"

definition load_config :: "env \<Rightarrow> monitor \<Rightarrow> (error + json) \<times> monitor" where
  "load_config E m =
     (case read_json E CONFIG_FILE m of
        Inr cfg \<Rightarrow> (Inr cfg, m)
      | Inl e \<Rightarrow> then_return (save_config E default_config m) default_config)"

section \<open>The notification store\<close>






section \<open>The listener manager\<close>

text \<open>\<open>xs.append(x)\<close> and \<open>xs.remove(x)\<close>: only a list has them.\<close>

fun list_append :: "json \<Rightarrow> json \<Rightarrow> error + json" where
  "list_append (JArr xs) x = Inr (JArr (xs @ [x]))"
| "list_append _ x = Inl AttributeError"

fun list_remove :: "json \<Rightarrow> json \<Rightarrow> error + json" where
  "list_remove (JArr xs) x = (if x \<in> set xs then Inr (JArr (remove1 x xs)) else Inl ValueError)"
| "list_remove _ x = Inl AttributeError"

definition add_group_listener ::
  "env \<Rightarrow> pystr \<Rightarrow> monitor \<Rightarrow> (error + bool) \<times> monitor" where
  "add_group_listener E group_name m =
     (if active_listeners m group_name = None then
        (let m1 = m\<lparr>wx := wx m @ [AddListenChat group_name],
                    active_listeners := (active_listeners m)(group_name \<mapsto> True)\<rparr> in
         case and_then (getitem (config m1) (str ''target_groups'')) (\<lambda>groups.
              and_then (py_in group_name groups) (\<lambda>present.
                if present then Inr None
                else
                  and_then (list_append groups (JStr group_name)) (\<lambda>groups'.
                  and_then (setitem (config m1) (str ''target_groups'') groups') (\<lambda>cfg.
                  Inr (Some cfg))))) of
           Inl e \<Rightarrow> (Inl e, m1)
         | Inr None \<Rightarrow> (Inr True, m1)
         | Inr (Some cfg) \<Rightarrow> then_return (save_config E JNull (m1\<lparr>config := cfg\<rparr>)) True)
      else (Inr False, m))"

definition remove_group_listener ::
  "env \<Rightarrow> pystr \<Rightarrow> monitor \<Rightarrow> (error + bool) \<times> monitor" where
  "remove_group_listener E group_name m =
     (if active_listeners m group_name \<noteq> None then
        (let m1 = m\<lparr>wx := wx m @ [RemoveListenChat group_name],
                    active_listeners := (active_listeners m)(group_name := None)\<rparr> in
         case and_then (getitem (config m1) (str ''target_groups'')) (\<lambda>groups.
              and_then (py_in group_name groups) (\<lambda>present.
                if present then
                  and_then (list_remove groups (JStr group_name)) (\<lambda>groups'.
                  and_then (setitem (config m1) (str ''target_groups'') groups') (\<lambda>cfg.
                  Inr (Some cfg)))
                else Inr None)) of
           Inl e \<Rightarrow> (Inl e, m1)
         | Inr None \<Rightarrow> (Inr True, m1)
         | Inr (Some cfg) \<Rightarrow> then_return (save_config E JNull (m1\<lparr>config := cfg\<rparr>)) True)
      else (Inr False, m))"

text \<open>
  A sequence of calls, each on the state the one before left (a call that raises leaves
  the state as it was when it raised).
\<close>

datatype listener_call = Add pystr | Remove pystr

fun run_call :: "env \<Rightarrow> listener_call \<Rightarrow> monitor \<Rightarrow> monitor" where
  "run_call E (Add g) m = snd (add_group_listener E g m)"
| "run_call E (Remove g) m = snd (remove_group_listener E g m)"

fun run_calls :: "env \<Rightarrow> listener_call list \<Rightarrow> monitor \<Rightarrow> monitor" where
  "run_calls E [] m = m"
| "run_calls E (c # cs) m = run_calls E cs (run_call E c m)"

section \<open>A small JSON codec\<close>

text \<open>
  The theorems below hold for every environment. To run the program on concrete inputs
  the environment is instantiated with a small codec, which follows Python's \<open>json\<close>
  module on the JSON whose numbers are integers and whose strings have no surrogate
  escapes, and decodes nothing else.
\<close>

definition json_ws :: "nat \<Rightarrow> bool" where
  "json_ws c \<longleftrightarrow> c = 32 \<or> c = 9 \<or> c = 10 \<or> c = 13"

definition skip_ws :: "pystr \<Rightarrow> pystr" where
  "skip_ws s = dropWhile json_ws s"

definition is_digit :: "nat \<Rightarrow> bool" where
  "is_digit c \<longleftrightarrow> 48 \<le> c \<and> c \<le> 57"

definition hex_digit :: "nat \<Rightarrow> nat option" where
  "hex_digit c =
     (if 48 \<le> c \<and> c \<le> 57 then Some (c - 48)
      else if 97 \<le> c \<and> c \<le> 102 then Some (c - 87)
      else if 65 \<le> c \<and> c \<le> 70 then Some (c - 55)
      else None)"

definition hex4 :: "nat \<Rightarrow> nat \<Rightarrow> nat \<Rightarrow> nat \<Rightarrow> nat option" where
  "hex4 a b c d =
     (case (hex_digit a, hex_digit b, hex_digit c, hex_digit d) of
        (Some x, Some y, Some z, Some w) \<Rightarrow>
          (let u = ((x * 16 + y) * 16 + z) * 16 + w in
           if 55296 \<le> u \<and> u \<le> 57343 then None else Some u)
      | _ \<Rightarrow> None)"

definition unescape :: "nat \<Rightarrow> nat option" where
  "unescape e =
     (if e = 34 \<or> e = 92 \<or> e = 47 then Some e
      else if e = 98 then Some 8
      else if e = 102 then Some 12
      else if e = 110 then Some 10
      else if e = 114 then Some 13
      else if e = 116 then Some 9
      else None)"

text \<open>The characters of a string literal after its opening quote, and what follows it.\<close>

fun scan_string :: "pystr \<Rightarrow> (pystr \<times> pystr) option" where
  "scan_string [] = None"
| "scan_string (c # cs) =
     (if c = 34 then Some ([], cs)
      else if c < 32 then None
      else if c = 92 then
        (case cs of
           [] \<Rightarrow> None
         | e # cs1 \<Rightarrow>
             if e = 117 then
               (case cs1 of
                  a # b # x # d # cs2 \<Rightarrow>
                    (case hex4 a b x d of
                       None \<Rightarrow> None
                     | Some u \<Rightarrow>
                         (case scan_string cs2 of
                            None \<Rightarrow> None
                          | Some (s, r) \<Rightarrow> Some (u # s, r)))
                | _ \<Rightarrow> None)
             else
               (case unescape e of
                  None \<Rightarrow> None
                | Some u \<Rightarrow>
                    (case scan_string cs1 of
                       None \<Rightarrow> None
                     | Some (s, r) \<Rightarrow> Some (u # s, r))))
      else
        (case scan_string cs of
           None \<Rightarrow> None
         | Some (s, r) \<Rightarrow> Some (c # s, r)))"

definition digits_value :: "pystr \<Rightarrow> nat" where
  "digits_value ds = foldl (\<lambda>a d. 10 * a + (d - 48)) 0 ds"

text \<open>An integer literal; a fraction or an exponent after it makes a float, which is
  outside the codec.\<close>

definition scan_nat :: "pystr \<Rightarrow> (nat \<times> pystr) option" where
  "scan_nat s =
     (case s of
        [] \<Rightarrow> None
      | d # r \<Rightarrow>
          if d = 48 then Some (0, r)
          else if 49 \<le> d \<and> d \<le> 57 then
            Some (digits_value (d # takeWhile is_digit r), dropWhile is_digit r)
          else None)"

definition scan_int :: "pystr \<Rightarrow> (int \<times> pystr) option" where
  "scan_int s =
     (case (case s of
              [] \<Rightarrow> None
            | c # cs \<Rightarrow>
                if c = 45 then map_option (\<lambda>(n, r). (- int n, r)) (scan_nat cs)
                else map_option (\<lambda>(n, r). (int n, r)) (scan_nat s)) of
        None \<Rightarrow> None
      | Some (i, r) \<Rightarrow>
          (case r of
             [] \<Rightarrow> Some (i, r)
           | x # _ \<Rightarrow> if x = 46 \<or> x = 101 \<or> x = 69 then None else Some (i, r)))"

text \<open>
  The decoder proper. Its first argument bounds the depth of the recursion; each call
  made with a shorter bound has read at least one character.
\<close>

fun parse_value :: "'f list \<Rightarrow> pystr \<Rightarrow> (json \<times> pystr) option"
  and parse_items :: "'f list \<Rightarrow> pystr \<Rightarrow> (json list \<times> pystr) option"
  and parse_members ::
    "'f list \<Rightarrow> pystr \<Rightarrow> (pystr \<times> json) list \<Rightarrow> ((pystr \<times> json) list \<times> pystr) option"
where
  "parse_value [] s = None"
| "parse_value (f # fuel) s =
     (case s of
        [] \<Rightarrow> None
      | c # cs \<Rightarrow>
          if c = 34 then map_option (\<lambda>(t, r). (JStr t, r)) (scan_string cs)
          else if c = 123 then
            (case skip_ws cs of
               [] \<Rightarrow> None
             | x # r \<Rightarrow>
                 if x = 125 then Some (JObj [], r)
                 else map_option (\<lambda>(kvs, r'). (JObj kvs, r')) (parse_members fuel (x # r) []))
          else if c = 91 then
            (case skip_ws cs of
               [] \<Rightarrow> None
             | x # r \<Rightarrow>
                 if x = 93 then Some (JArr [], r)
                 else map_option (\<lambda>(vs, r'). (JArr vs, r')) (parse_items fuel (x # r)))
          else if prefix (str ''null'') s then Some (JNull, drop 4 s)
          else if prefix (str ''true'') s then Some (JBool True, drop 4 s)
          else if prefix (str ''false'') s then Some (JBool False, drop 5 s)
          else map_option (\<lambda>(i, r). (JInt i, r)) (scan_int s))"
| "parse_items [] s = None"
| "parse_items (f # fuel) s =
     (case parse_value fuel s of
        None \<Rightarrow> None
      | Some (v, r) \<Rightarrow>
          (case skip_ws r of
             [] \<Rightarrow> None
           | x # r1 \<Rightarrow>
               if x = 93 then Some ([v], r1)
               else if x = 44 then
                 map_option (\<lambda>(vs, r2). (v # vs, r2)) (parse_items fuel (skip_ws r1))
               else None))"
| "parse_members [] s acc = None"
| "parse_members (f # fuel) s acc =
     (case s of
        [] \<Rightarrow> None
      | q # cs \<Rightarrow>
          if q \<noteq> 34 then None
          else
            (case scan_string cs of
               None \<Rightarrow> None
             | Some (k, r) \<Rightarrow>
                 (case skip_ws r of
                    [] \<Rightarrow> None
                  | x # r1 \<Rightarrow>
                      if x \<noteq> 58 then None
                      else
                        (case parse_value fuel (skip_ws r1) of
                           None \<Rightarrow> None
                         | Some (v, r2) \<Rightarrow>
                             (case skip_ws r2 of
                                [] \<Rightarrow> None
                              | y # r3 \<Rightarrow>
                                  if y = 125 then Some (dict_set k v acc, r3)
                                  else if y = 44 then
                                    parse_members fuel (skip_ws r3) (dict_set k v acc)
                                  else None)))))"

definition mini_loads :: "pystr \<Rightarrow> json option" where
  "mini_loads s =
     (case parse_value (0 # s) (skip_ws s) of
        None \<Rightarrow> None
      | Some (v, r) \<Rightarrow> if skip_ws r = [] then Some v else None)"

text \<open>The encoder: \<open>indent=2\<close>, \<open>ensure_ascii=False\<close>.\<close>

function digits :: "nat \<Rightarrow> pystr" where
  "digits n = (if n < 10 then [48 + n] else digits (n div 10) @ [48 + n mod 10])"
  by pat_completeness auto
termination
  by (relation "measure id") auto

declare digits.simps [simp del]

definition hex_char :: "nat \<Rightarrow> nat" where
  "hex_char d = (if d < 10 then 48 + d else 87 + d)"

definition escape :: "nat \<Rightarrow> pystr" where
  "escape c =
     (if c = 34 then [92, 34]
      else if c = 92 then [92, 92]
      else if c = 10 then [92, 110]
      else if c = 13 then [92, 114]
      else if c = 9 then [92, 116]
      else if c = 8 then [92, 98]
      else if c = 12 then [92, 102]
      else if c < 32 then [92, 117, 48, 48, hex_char (c div 16), hex_char (c mod 16)]
      else [c])"

definition quote :: "pystr \<Rightarrow> pystr" where
  "quote s = [34] @ concat (map escape s) @ [34]"

definition newline :: "nat \<Rightarrow> pystr" where
  "newline depth = 10 # concat (replicate depth [32, 32])"

fun dump_value :: "nat \<Rightarrow> json \<Rightarrow> pystr"
  and dump_items :: "nat \<Rightarrow> json list \<Rightarrow> pystr"
  and dump_members :: "nat \<Rightarrow> (pystr \<times> json) list \<Rightarrow> pystr"
where
  "dump_value depth JNull = str ''null''"
| "dump_value depth (JBool b) = (if b then str ''true'' else str ''false'')"
| "dump_value depth (JInt i) = (if i < 0 then 45 # digits (nat (- i)) else digits (nat i))"
| "dump_value depth (JStr s) = quote s"
| "dump_value depth (JArr xs) =
     (if xs = [] then str ''[]''
      else [91] @ newline (Suc depth) @ dump_items (Suc depth) xs @ newline depth @ [93])"
| "dump_value depth (JObj kvs) =
     (if kvs = [] then str ''{}''
      else [123] @ newline (Suc depth) @ dump_members (Suc depth) kvs @ newline depth @ [125])"
| "dump_items depth [] = []"
| "dump_items depth (x # xs) =
     dump_value depth x @ (if xs = [] then [] else [44] @ newline depth @ dump_items depth xs)"
| "dump_members depth [] = []"
| "dump_members depth ((k, v) # kvs) =
     quote k @ [58, 32] @ dump_value depth v @
     (if kvs = [] then [] else [44] @ newline depth @ dump_members depth kvs)"

definition mini_dumps :: "json \<Rightarrow> pystr" where
  "mini_dumps v = dump_value 0 v"

text \<open>
  The pieces in which \<open>json.dump\<close> writes a value (the chunks of \<open>iterencode\<close>): a list
  gives its bracket, the indentation and a first element that is not a container as one
  piece, each later separator with the element after it as one piece too; a dict gives
  its brace, each indentation, key, colon and value as pieces of their own.
\<close>

fun chunk_value :: "nat \<Rightarrow> json \<Rightarrow> pystr list"
  and chunk_items :: "nat \<Rightarrow> pystr \<Rightarrow> json list \<Rightarrow> pystr list"
  and chunk_members :: "nat \<Rightarrow> bool \<Rightarrow> (pystr \<times> json) list \<Rightarrow> pystr list"
where
  "chunk_value depth (JArr xs) =
     (if xs = [] then [str ''[]'']
      else chunk_items (Suc depth) ([91] @ newline (Suc depth)) xs @ [newline depth, [93]])"
| "chunk_value depth (JObj kvs) =
     (if kvs = [] then [str ''{}'']
      else [[123], newline (Suc depth)] @ chunk_members (Suc depth) True kvs @
           [newline depth, [125]])"
| "chunk_value depth JNull = [dump_value depth JNull]"
| "chunk_value depth (JBool b) = [dump_value depth (JBool b)]"
| "chunk_value depth (JInt i) = [dump_value depth (JInt i)]"
| "chunk_value depth (JStr s) = [dump_value depth (JStr s)]"
| "chunk_items depth buf [] = []"
| "chunk_items depth buf (x # xs) =
     (case x of
        JArr ys \<Rightarrow> buf # chunk_value depth x
      | JObj kvs \<Rightarrow> buf # chunk_value depth x
      | _ \<Rightarrow> [buf @ dump_value depth x]) @
     chunk_items depth ([44] @ newline depth) xs"
| "chunk_members depth first [] = []"
| "chunk_members depth first ((k, v) # kvs) =
     (if first then [] else [[44] @ newline depth]) @ [quote k, [58, 32]] @
     chunk_value depth v @ chunk_members depth False kvs"

definition mini_chunks :: "json \<Rightarrow> pystr list" where
  "mini_chunks v = chunk_value 0 v"

definition mini_partial :: "json \<Rightarrow> pystr" where
  "mini_partial v = concat (takeWhile (\<lambda>chunk. \<not> list_ex surrogate chunk) (mini_chunks v))"

text \<open>\<open>str.lower\<close> on ASCII letters; the other characters are left as they are.\<close>

definition ascii_lower :: "pystr \<Rightarrow> pystr" where
  "ascii_lower s = map (\<lambda>c. if 65 \<le> c \<and> c \<le> 90 then c + 32 else c) s"

text \<open>The environment with this codec and a model API that answers \<open>reply\<close>.\<close>

definition mini_env :: "(nat \<Rightarrow> pystr \<Rightarrow> json option) \<Rightarrow> env" where
  "mini_env reply =
     \<lparr>json_loads = mini_loads, json_dumps = mini_dumps, json_dump_partial = mini_partial,
      requests_post = reply, str_lower = ascii_lower\<rparr>"

text \<open>The body \<open>{"choices": [{"message": {"content": text}}]}\<close> of a completion.\<close>

definition completion :: "pystr \<Rightarrow> json" where
  "completion text =
     JObj [(str ''choices'', JArr [JObj [(str ''message'', JObj [(str ''content'', JStr text)])]])]"

text \<open>A monitor with no file, no listener and the default configuration.\<close>

definition fresh :: monitor where
  "fresh =
     \<lparr>files = Map.empty, writes = [], calls = [], wx = [], config = default_config,
      active_listeners = Map.empty\<rparr>"

section \<open>Vocabulary of the properties\<close>



text \<open>The codec gives a value back: \<open>json.loads(json.dumps(v)) == v\<close>.\<close>

definition codec_ok :: "env \<Rightarrow> json \<Rightarrow> bool" where
  "codec_ok E v \<longleftrightarrow> json_loads E (json_dumps E v) = Some v"

text \<open>The list \<open>config['target_groups']\<close>, where the configuration has one.\<close>

definition target_groups :: "monitor \<Rightarrow> json list option" where
  "target_groups m =
     (case getitem (config m) (str ''target_groups'') of
        Inr (JArr gs) \<Rightarrow> Some gs
      | _ \<Rightarrow> None)"


text \<open>A model API that answers every prompt with the affirmative token.\<close>

definition yes_api :: "nat \<Rightarrow> pystr \<Rightarrow> json option" where
  "yes_api n prompt = Some (completion affirmative)"

text \<open>A model API that answers every prompt with the completion \<open>text\<close>.\<close>

definition reply_api :: "pystr \<Rightarrow> nat \<Rightarrow> pystr \<Rightarrow> json option" where
  "reply_api text n prompt = Some (completion text)"

text \<open>A message, and three replies of the model to its extraction prompt: a JSON object
  with the six fields, an object inside prose, and text that holds no JSON.\<close>

definition staff_message :: pystr where
  "staff_message = str ''Staff meeting at 3pm in Room 1, please attend''"

definition full_reply :: pystr where
  "full_reply = str ''{\"title\": \"Meeting\", \"time\": \"3pm\", \"location\": \"Room 1\", \"content\": \"Staff meeting\", \"action\": \"Attend\", \"is_urgent\": \"Yes\"}''"

definition full_object :: "json \<Rightarrow> json" where
  "full_object urgent =
     JObj [(str ''title'', JStr (str ''Meeting'')),
           (str ''time'', JStr (str ''3pm'')),
           (str ''location'', JStr (str ''Room 1'')),
           (str ''content'', JStr (str ''Staff meeting'')),
           (str ''action'', JStr (str ''Attend'')),
           (str ''is_urgent'', urgent)]"

definition prose_reply :: pystr where
  "prose_reply = str ''Here you go: {\"title\": \"Meeting\"} Thanks''"

definition garbled_reply :: pystr where
  "garbled_reply = str ''sorry {no json} here''"




text \<open>A monitor whose configuration file does not decode, and one whose configuration
  names a group twice.\<close>

definition malformed :: monitor where
  "malformed = fresh\<lparr>files := [CONFIG_FILE \<mapsto> str ''{oops'']\<rparr>"

definition doubled :: monitor where
  "doubled =
     fresh\<lparr>config :=
       JObj [(str ''target_groups'', JArr [JStr (str ''team''), JStr (str ''team'')]),
             (str ''keywords'', JArr []),
             (str ''enable_alert'', JBool True)]\<rparr>"

text \<open>
  A JSON value as a Python program holds it has each key of a dict once; in the
  representation by lists this is a property of the value.
\<close>

fun distinct_keys :: "json \<Rightarrow> bool"
  and distinct_keys_items :: "json list \<Rightarrow> bool"
  and distinct_keys_members :: "(pystr \<times> json) list \<Rightarrow> bool"
where
  "distinct_keys (JArr xs) = distinct_keys_items xs"
| "distinct_keys (JObj kvs) = (distinct (map fst kvs) \<and> distinct_keys_members kvs)"
| "distinct_keys JNull = True"
| "distinct_keys (JBool b) = True"
| "distinct_keys (JInt i) = True"
| "distinct_keys (JStr s) = True"
| "distinct_keys_items [] = True"
| "distinct_keys_items (x # xs) = (distinct_keys x \<and> distinct_keys_items xs)"
| "distinct_keys_members [] = True"
| "distinct_keys_members ((k, v) # kvs) = (distinct_keys v \<and> distinct_keys_members kvs)"

text \<open>A bound on the depth of recursion that decoding the text of a value needs, and the
  text that may follow a number: nothing, a comma or a line break.\<close>

fun nesting :: "json \<Rightarrow> nat"
  and nesting_items :: "json list \<Rightarrow> nat"
  and nesting_members :: "(pystr \<times> json) list \<Rightarrow> nat"
where
  "nesting (JArr xs) = Suc (nesting_items xs)"
| "nesting (JObj kvs) = Suc (nesting_members kvs)"
| "nesting JNull = 1"
| "nesting (JBool b) = 1"
| "nesting (JInt i) = 1"
| "nesting (JStr s) = 1"
| "nesting_items [] = 0"
| "nesting_items (x # xs) = Suc (max (nesting x) (nesting_items xs))"
| "nesting_members [] = 0"
| "nesting_members ((k, v) # kvs) = Suc (max (nesting v) (nesting_members kvs))"

definition delimited :: "pystr \<Rightarrow> bool" where
  "delimited rest = (case rest of [] \<Rightarrow> True | c # _ \<Rightarrow> c = 44 \<or> c = 10)"

text \<open>
  A configuration whose one group name is the lone surrogate \<open>U+D83D\<close> (the JSON
  request body of \<open>/api/groups/add\<close> can carry it as an escape), what is left in the file
  when writing it raises, and a configuration with a Chinese group name.
\<close>

definition unwritable_config :: json where
  "unwritable_config =
     JObj [(str ''target_groups'', JArr [JStr [55357]]),
           (str ''keywords'', JArr []),
           (str ''enable_alert'', JBool True)]"

definition truncated :: pystr where
  "truncated = [123, 10, 32, 32] @ str ''\"target_groups\": ''"

definition team_config :: json where
  "team_config =
     JObj [(str ''target_groups'', JArr [JStr (str ''team''), JStr [36890, 30693]]),
           (str ''keywords'', JArr [JStr [37325, 35201]]),
           (str ''enable_alert'', JBool False)]"

section \<open>Strings\<close>

lemma substr_in_sublist: "substr_in p s \<longleftrightarrow> sublist p s"
  by (induction s) (simp_all add: sublist_Cons_right)

lemma sublist_strip: "sublist (strip s) s"
proof -
  have "prefix (rev (dropWhile isspace (rev (dropWhile isspace s)))) (dropWhile isspace s)"
    by (metis suffix_dropWhile suffix_to_prefix rev_rev_ident)
  moreover have "suffix (dropWhile isspace s) s"
    by (rule suffix_dropWhile)
  ultimately show ?thesis
    unfolding strip_def
    by (meson prefix_imp_sublist suffix_imp_sublist sublist_order.order_trans)
qed

lemma substr_in_strip: "substr_in p (strip s) \<Longrightarrow> substr_in p s"
  using sublist_strip [of s] by (auto simp: substr_in_sublist intro: sublist_order.order_trans)

section \<open>The classifier gates the remote call\<close>

lemma any_keyword_in_strings:
  "any_keyword_in (map JStr kws) content = Inr (\<exists>k\<in>set kws. substr_in k content)"
  by (induction kws) simp_all

lemma analyze_with_model_calls:
  "calls (snd (analyze_with_model E prompt m)) = calls m @ [prompt]"
  by (simp add: analyze_with_model_def call_model_api_def)

text \<open>
  C2. Let the configuration be a dict whose \<open>keywords\<close> are the strings \<open>kws\<close>. If no
  keyword occurs in the content and the content has at most 20 characters, then
  \<open>is_notification\<close> returns false and leaves the state as it was, so that no request
  went to the model. And if \<open>is_notification\<close> returns true, then the content holds a
  keyword or is longer than 20 characters, and the model's reply to the classification
  prompt is a string that holds the affirmative token.
\<close>

theorem is_notification_two_stage:
  assumes "config m = JObj kvs"
    and "map_of kvs (str ''keywords'') = Some (JArr (map JStr kws))"
  shows "((\<forall>k\<in>set kws. \<not> substr_in k content) \<and> length content \<le> 20 \<longrightarrow>
            is_notification E content m = (Inr False, m)) \<and>
         (fst (is_notification E content m) = Inr True \<longrightarrow>
            ((\<exists>k\<in>set kws. substr_in k content) \<or> length content > 20) \<and>
            (\<exists>r. fst (analyze_with_model E (is_notification_prompt content) m) = Inr (JStr r) \<and>
                 substr_in affirmative r))"
proof -
  have kw: "and_then (get_keywords (config m)) (\<lambda>keywords.
              and_then (py_iter keywords) (\<lambda>ks. any_keyword_in ks content))
            = Inr (\<exists>k\<in>set kws. substr_in k content)"
    using assms by (simp add: any_keyword_in_strings)
  have gate: "(\<forall>k\<in>set kws. \<not> substr_in k content) \<and> length content \<le> 20 \<longrightarrow>
              is_notification E content m = (Inr False, m)"
    unfolding is_notification_def kw by auto
  have only_if: "((\<exists>k\<in>set kws. substr_in k content) \<or> length content > 20) \<and>
            (\<exists>r. fst (analyze_with_model E (is_notification_prompt content) m) = Inr (JStr r) \<and>
                 substr_in affirmative r)"
    if yes: "fst (is_notification E content m) = Inr True"
  proof -
    obtain response m' where a:
      "analyze_with_model E (is_notification_prompt content) m = (response, m')"
      by (cases "analyze_with_model E (is_notification_prompt content) m")
    from yes have cond: "(\<exists>k\<in>set kws. substr_in k content) \<or> length content > 20"
      unfolding is_notification_def kw by (auto split: if_splits)
    with yes a have "and_then response reply_affirms = Inr True"
      unfolding is_notification_def kw by (auto split: if_splits)
    then obtain v where v: "response = Inr v" "reply_affirms v = Inr True"
      by (cases response) auto
    then obtain r where r: "v = JStr r" "substr_in affirmative (strip r)"
      by (cases v) auto
    from r(2) have "substr_in affirmative r"
      by (rule substr_in_strip)
    with cond a v(1) r(1) show ?thesis by auto
  qed
  from gate only_if show ?thesis by blast
qed

theorem is_notification_two_stage_witness:
  "is_notification (mini_env yes_api) (str ''hi'') fresh = (Inr False, fresh) \<and>
   fst (is_notification (mini_env yes_api) [36890, 30693] fresh) = Inr True \<and>
   (\<exists>r. fst (analyze_with_model (mini_env yes_api) (is_notification_prompt [36890, 30693]) fresh)
          = Inr (JStr r) \<and> substr_in affirmative r)"
proof -
  let ?kws = "[[36890, 30693], [37325, 35201], [32039, 24613], [25552, 37266], [24517, 30475]]"
  let ?kvs = "[(str ''target_groups'', JArr []), (str ''keywords'', JArr (map JStr ?kws)),
               (str ''enable_alert'', JBool True)]"
  have c: "config fresh = JObj ?kvs"
    by (simp add: fresh_def default_config_def)
  have k: "map_of ?kvs (str ''keywords'') = Some (JArr (map JStr ?kws))"
    by (simp add: str_def)
  have short: "(\<forall>k\<in>set ?kws. \<not> substr_in k (str ''hi'')) \<and> length (str ''hi'') \<le> 20"
    by (simp add: str_def)
  have yes: "fst (is_notification (mini_env yes_api) [36890, 30693] fresh) = Inr True"
    by (simp add: is_notification_def analyze_with_model_def call_model_api_def mini_env_def
        yes_api_def completion_def fresh_def default_config_def str_def affirmative_def
        strip_def isspace_def)
  from is_notification_two_stage [OF c k, where content = "str ''hi''" and E = "mini_env yes_api"] short
  have 1: "is_notification (mini_env yes_api) (str ''hi'') fresh = (Inr False, fresh)"
    by blast
  from is_notification_two_stage [OF c k, where content = "[36890, 30693]" and E = "mini_env yes_api"] yes
  have 2: "\<exists>r. fst (analyze_with_model (mini_env yes_api) (is_notification_prompt [36890, 30693]) fresh)
          = Inr (JStr r) \<and> substr_in affirmative r"
    by blast
  from 1 2 yes show ?thesis by simp
qed

section \<open>Evaluation of the codec\<close>

lemmas codec_simps = mini_loads_def mini_dumps_def str_def skip_ws_def json_ws_def quote_def
  escape_def newline_def unescape_def scan_int_def scan_nat_def is_digit_def digits_value_def
  hex4_def hex_digit_def hex_char_def digits.simps

section \<open>The extractor\<close>

text \<open>
  The statement \<open>print(json.load(response))\<close> raises on every reply, so the body of the
  \<open>try\<close> never gets past it and the handler returns the default record.
\<close>

lemma extract_body_raises: "extract_body E content r = Inl AttributeError"
  by (simp add: extract_body_def json_load_def)

lemma extract_default_whenever_replied:
  assumes "fst (analyze_with_model E (extract_prompt content) m) = Inr r"
  shows "fst (extract_notification_info E content m) = Inr (default_info content)"
  using assms
  by (auto simp: extract_notification_info_def extract_body_raises split: prod.splits)

lemma analyze_reply_api:
  "fst (analyze_with_model (mini_env (reply_api text)) prompt m) = Inr (JStr text)"
  by (simp add: analyze_with_model_def call_model_api_def mini_env_def reply_api_def
      completion_def str_def)

text \<open>
  C3. Let the model's reply to the extraction prompt be a string that \<open>json.loads\<close> rejects
  and whose text from the first \<open>{\<close> to the last \<open>}\<close>, where there is one, it rejects
  too. Then \<open>extract_notification_info\<close> returns, without raising, the default record:
  the title of an unknown notification, empty time, location and action, \<open>is_urgent\<close>
  false, and as content the first 200 characters of the message.
\<close>

theorem extract_unparseable_default:
  assumes "fst (analyze_with_model E (extract_prompt content) m) = Inr (JStr response)"
    and "json_loads E response = None"
    and "str_find 123 response \<ge> 0 \<and> str_rfind 125 response + 1 > str_find 123 response \<longrightarrow>
         json_loads E (slice response (str_find 123 response) (str_rfind 125 response + 1)) = None"
  shows "fst (extract_notification_info E content m) =
         Inr (JObj [(str ''title'', JStr [26410, 30693, 36890, 30693]),
                    (str ''time'', JStr []),
                    (str ''location'', JStr []),
                    (str ''content'', JStr (take 200 content)),
                    (str ''action'', JStr []),
                    (str ''is_urgent'', JBool False)])"
  using extract_default_whenever_replied [OF assms(1)]
  by (simp add: default_info_def default_items_def unknown_title_def)

lemma garbled_slice:
  "slice garbled_reply (str_find 123 garbled_reply) (str_rfind 125 garbled_reply + 1) = str ''{no json}''"
  by (simp add: garbled_reply_def str_def str_rfind_def slice_def)

theorem extract_unparseable_default_witness:
  "json_loads (mini_env (reply_api garbled_reply)) garbled_reply = None \<and>
   json_loads (mini_env (reply_api garbled_reply)) (str ''{no json}'') = None \<and>
   fst (extract_notification_info (mini_env (reply_api garbled_reply)) staff_message fresh) =
     Inr (JObj [(str ''title'', JStr [26410, 30693, 36890, 30693]),
                (str ''time'', JStr []),
                (str ''location'', JStr []),
                (str ''content'', JStr staff_message),
                (str ''action'', JStr []),
                (str ''is_urgent'', JBool False)])"
proof -
  let ?E = "mini_env (reply_api garbled_reply)"
  have a: "fst (analyze_with_model ?E (extract_prompt staff_message) fresh) = Inr (JStr garbled_reply)"
    by (rule analyze_reply_api)
  have b: "json_loads ?E garbled_reply = None"
    by (simp add: mini_env_def garbled_reply_def codec_simps)
  have c: "json_loads ?E (str ''{no json}'') = None"
    by (simp add: mini_env_def codec_simps)
  have d: "str_find 123 garbled_reply \<ge> 0 \<and> str_rfind 125 garbled_reply + 1 > str_find 123 garbled_reply \<longrightarrow>
         json_loads ?E (slice garbled_reply (str_find 123 garbled_reply) (str_rfind 125 garbled_reply + 1)) = None"
    unfolding garbled_slice using c by simp
  have e: "take 200 staff_message = staff_message"
    by (simp add: staff_message_def str_def)
  from extract_unparseable_default [OF a b d] b c e show ?thesis by simp
qed

text \<open>
  C1. The model answers the extraction prompt with a JSON object that has the six fields
  and \<open>"Yes"\<close> as \<open>is_urgent\<close>. The decoder reads the object, and the statements after the
  \<open>print\<close> would return it with \<open>is_urgent\<close> turned into \<open>True\<close>; the function returns the
  default record instead, which is another record.
\<close>

theorem extract_complete_reply_lost:
  "mini_loads full_reply = Some (full_object (JStr (str ''Yes''))) \<and>
   and_then (parse_response (mini_env (reply_api full_reply)) (JStr full_reply))
     (backfill (mini_env (reply_api full_reply)) (default_items staff_message))
     = Inr (full_object (JBool True)) \<and>
   fst (extract_notification_info (mini_env (reply_api full_reply)) staff_message fresh)
     = Inr (default_info staff_message) \<and>
   default_info staff_message \<noteq> full_object (JBool True)"
proof -
  let ?E = "mini_env (reply_api full_reply)"
  have l: "mini_loads full_reply = Some (full_object (JStr (str ''Yes'')))"
    by (simp add: full_reply_def full_object_def codec_simps)
  have p: "parse_response ?E (JStr full_reply) = Inr (full_object (JStr (str ''Yes'')))"
    using l by (simp add: mini_env_def)
  have b: "backfill ?E (default_items staff_message) (full_object (JStr (str ''Yes'')))
           = Inr (full_object (JBool True))"
    by (simp add: default_items_def full_object_def urgent_word_def mini_env_def
        ascii_lower_def affirmative_def str_def)
  have x: "fst (extract_notification_info ?E staff_message fresh) = Inr (default_info staff_message)"
    by (rule extract_default_whenever_replied) (rule analyze_reply_api)
  have n: "default_info staff_message \<noteq> full_object (JBool True)"
    by (simp add: default_info_def default_items_def full_object_def unknown_title_def str_def)
  from l p b x n show ?thesis by simp
qed

text \<open>
  C4. The model answers the extraction prompt with an object inside prose. The whole
  reply does not decode, the text from the first \<open>{\<close> to the last \<open>}\<close> is the object, and
  the statements after the \<open>print\<close> would return it with the five missing fields taken
  from the default record; the function returns the default record instead, whose title
  is not the title of the object.
\<close>

theorem extract_embedded_reply_lost:
  "mini_loads prose_reply = None \<and>
   slice prose_reply (str_find 123 prose_reply) (str_rfind 125 prose_reply + 1)
     = str ''{\"title\": \"Meeting\"}'' \<and>
   and_then (parse_response (mini_env (reply_api prose_reply)) (JStr prose_reply))
     (backfill (mini_env (reply_api prose_reply)) (default_items staff_message))
     = Inr (JObj [(str ''title'', JStr (str ''Meeting'')),
                  (str ''time'', JStr []),
                  (str ''location'', JStr []),
                  (str ''content'', JStr staff_message),
                  (str ''action'', JStr []),
                  (str ''is_urgent'', JBool False)]) \<and>
   fst (extract_notification_info (mini_env (reply_api prose_reply)) staff_message fresh)
     = Inr (JObj [(str ''title'', JStr unknown_title),
                  (str ''time'', JStr []),
                  (str ''location'', JStr []),
                  (str ''content'', JStr staff_message),
                  (str ''action'', JStr []),
                  (str ''is_urgent'', JBool False)]) \<and>
   unknown_title \<noteq> str ''Meeting''"
proof -
  let ?E = "mini_env (reply_api prose_reply)"
  have l: "mini_loads prose_reply = None"
    by (simp add: prose_reply_def codec_simps)
  have s: "slice prose_reply (str_find 123 prose_reply) (str_rfind 125 prose_reply + 1)
           = str ''{\"title\": \"Meeting\"}''"
    by (simp add: prose_reply_def str_def str_rfind_def slice_def)
  have f: "str_find 123 prose_reply \<ge> 0 \<and> str_rfind 125 prose_reply + 1 > str_find 123 prose_reply"
    by (simp add: prose_reply_def str_def str_rfind_def)
  have e: "mini_loads (str ''{\"title\": \"Meeting\"}'') = Some (JObj [(str ''title'', JStr (str ''Meeting''))])"
    by (simp add: codec_simps)
  have p: "parse_response ?E (JStr prose_reply) = Inr (JObj [(str ''title'', JStr (str ''Meeting''))])"
    using l f e by (simp add: mini_env_def s)
  have t: "take 200 staff_message = staff_message"
    by (simp add: staff_message_def str_def)
  have b: "backfill ?E (default_items staff_message) (JObj [(str ''title'', JStr (str ''Meeting''))])
           = Inr (JObj [(str ''title'', JStr (str ''Meeting'')),
                  (str ''time'', JStr []),
                  (str ''location'', JStr []),
                  (str ''content'', JStr staff_message),
                  (str ''action'', JStr []),
                  (str ''is_urgent'', JBool False)])"
    by (simp add: default_items_def t str_def)
  have x: "fst (extract_notification_info ?E staff_message fresh) = Inr (default_info staff_message)"
    by (rule extract_default_whenever_replied) (rule analyze_reply_api)
  have n: "unknown_title \<noteq> str ''Meeting''"
    by (simp add: unknown_title_def str_def)
  from l s p b x n t show ?thesis by (simp add: default_info_def default_items_def)
qed

section \<open>The notification store\<close>





















section \<open>The listener manager and the configuration\<close>

lemma map_of_dict_set:
  "map_of (dict_set k v kvs) k' = (if k' = k then Some v else map_of kvs k')"
  by (induction kvs) auto

lemma target_groups_obj:
  assumes "target_groups m = Some gs"
  obtains kvs where "config m = JObj kvs" and "map_of kvs (str ''target_groups'') = Some (JArr gs)"
proof (cases "config m")
  case (JObj kvs)
  with assms have "map_of kvs (str ''target_groups'') = Some (JArr gs)"
    by (auto simp: target_groups_def split: option.splits json.splits)
  with JObj that show ?thesis by blast
qed (use assms in \<open>simp_all add: target_groups_def\<close>)

lemma then_return_state [simp]: "snd (then_return p x) = snd p"
  by (cases p, cases "fst p") auto

lemma then_return_value: "fst (then_return p x) = Inr y \<longleftrightarrow> fst p = Inr () \<and> y = x"
  by (cases p, cases "fst p") auto

lemma save_config_memory [simp]:
  "config (snd (save_config E cfg m)) = config m"
  "target_groups (snd (save_config E cfg m)) = target_groups m"
  "active_listeners (snd (save_config E cfg m)) = active_listeners m"
  by (simp_all add: target_groups_def save_config_def dump_json_def write_json_def)

lemma add_group_listener_groups:
  assumes "target_groups m = Some gs"
  shows "target_groups (snd (add_group_listener E g m)) =
           Some (if active_listeners m g = None \<and> JStr g \<notin> set gs then gs @ [JStr g] else gs) \<and>
         active_listeners (snd (add_group_listener E g m)) =
           (if active_listeners m g = None then (active_listeners m)(g \<mapsto> True)
            else active_listeners m)"
proof -
  from assms obtain kvs where c: "config m = JObj kvs"
    and t: "map_of kvs (str ''target_groups'') = Some (JArr gs)"
    by (rule target_groups_obj)
  show ?thesis
  proof (cases "active_listeners m g = None")
    case True
    with c t assms show ?thesis
      by (simp add: add_group_listener_def target_groups_def map_of_dict_set)
  next
    case False
    with assms show ?thesis by (auto simp: add_group_listener_def)
  qed
qed

lemma remove_group_listener_groups:
  assumes "target_groups m = Some gs"
  shows "target_groups (snd (remove_group_listener E g m)) =
           Some (if active_listeners m g \<noteq> None then remove1 (JStr g) gs else gs)"
proof -
  from assms obtain kvs where c: "config m = JObj kvs"
    and t: "map_of kvs (str ''target_groups'') = Some (JArr gs)"
    by (rule target_groups_obj)
  show ?thesis
  proof (cases "active_listeners m g = None")
    case True
    with assms show ?thesis by (auto simp: remove_group_listener_def)
  next
    case False
    with c t assms show ?thesis
      by (cases "JStr g \<in> set gs")
        (auto simp: remove_group_listener_def target_groups_def map_of_dict_set remove1_idem
          Let_def)
  qed
qed

lemma add_group_listener_fresh_name:
  assumes "add_group_listener E g m = (Inr True, m1)"
  shows "active_listeners m g = None"
  using assms by (auto simp: add_group_listener_def split: if_splits)

lemma add_group_listener_active:
  assumes "active_listeners m g = None"
  shows "active_listeners (snd (add_group_listener E g m)) g = Some True"
  using assms
  by (simp add: add_group_listener_def Let_def split: sum.splits option.splits)

lemma add_group_listener_again:
  assumes "add_group_listener E g m = (Inr True, m1)"
  shows "add_group_listener E g m1 = (Inr False, m1)"
proof -
  from assms have "active_listeners m g = None"
    by (rule add_group_listener_fresh_name)
  then have "active_listeners (snd (add_group_listener E g m)) g = Some True"
    by (rule add_group_listener_active)
  with assms have "active_listeners m1 g = Some True" by simp
  then show ?thesis by (simp add: add_group_listener_def)
qed

text \<open>
  C7, with a condition on the state before the first call. Let \<open>add_group_listener\<close> succeed on a state whose \<open>target_groups\<close> is a
  list that holds the name at most once. Then a second call with the same name returns
  false and leaves the state as it is, and \<open>target_groups\<close> holds the name exactly once.
\<close>

theorem add_group_twice:
  assumes "add_group_listener E g m = (Inr True, m1)"
    and "target_groups m = Some gs"
    and "count_list gs (JStr g) \<le> 1"
  shows "add_group_listener E g m1 = (Inr False, m1) \<and>
         (\<exists>gs1. target_groups m1 = Some gs1 \<and> count_list gs1 (JStr g) = 1)"
proof -
  from assms(1) have n: "active_listeners m g = None"
    by (rule add_group_listener_fresh_name)
  from add_group_listener_groups [OF assms(2), of E g] assms(1) n
  have t: "target_groups m1 = Some (if JStr g \<notin> set gs then gs @ [JStr g] else gs)"
    by auto
  have "count_list (if JStr g \<notin> set gs then gs @ [JStr g] else gs) (JStr g) = 1"
  proof (cases "JStr g \<in> set gs")
    case True
    then have "count_list gs (JStr g) > 0"
      using count_list_0_iff [of gs "JStr g"] by auto
    with assms(3) True show ?thesis by simp
  next
    case False
    then show ?thesis by (simp add: count_list_0_iff)
  qed
  with t add_group_listener_again [OF assms(1)] show ?thesis by simp
qed

theorem add_group_twice_witness:
  "add_group_listener (mini_env yes_api) (str ''team'')
     (snd (add_group_listener (mini_env yes_api) (str ''team'') fresh))
     = (Inr False, snd (add_group_listener (mini_env yes_api) (str ''team'') fresh)) \<and>
   (\<exists>gs1. target_groups (snd (add_group_listener (mini_env yes_api) (str ''team'') fresh))
            = Some gs1 \<and> count_list gs1 (JStr (str ''team'')) = 1)"
proof -
  let ?E = "mini_env yes_api"
  have t: "target_groups fresh = Some []"
    by (simp add: target_groups_def fresh_def default_config_def str_def)
  have a: "add_group_listener ?E (str ''team'') fresh
           = (Inr True, snd (add_group_listener ?E (str ''team'') fresh))"
    by (simp add: add_group_listener_def save_config_def dump_json_def fresh_def
        default_config_def str_def surrogate_def prod_eq_iff)
  have c: "count_list [] (JStr (str ''team'')) \<le> 1" by simp
  from add_group_twice [OF a t c] show ?thesis .
qed

text \<open>
  C7 without that condition: on a configuration that already names the group twice (the
  file is loaded as it is) the first call succeeds, the second returns false, and
  \<open>target_groups\<close> still holds the name twice.
\<close>

theorem add_group_twice_counterexample:
  "fst (add_group_listener (mini_env yes_api) (str ''team'') doubled) = Inr True \<and>
   fst (add_group_listener (mini_env yes_api) (str ''team'')
          (snd (add_group_listener (mini_env yes_api) (str ''team'') doubled))) = Inr False \<and>
   target_groups (snd (add_group_listener (mini_env yes_api) (str ''team'')
          (snd (add_group_listener (mini_env yes_api) (str ''team'') doubled))))
     = Some [JStr (str ''team''), JStr (str ''team'')] \<and>
   count_list [JStr (str ''team''), JStr (str ''team'')] (JStr (str ''team'')) = 2"
  by (simp add: add_group_listener_def doubled_def fresh_def target_groups_def str_def)

text \<open>
  C10. From a state whose \<open>target_groups\<close> is a list without duplicates, every sequence of
  calls of \<open>add_group_listener\<close> and \<open>remove_group_listener\<close> leads to a state whose
  \<open>target_groups\<close> is a list without duplicates.
\<close>

theorem target_groups_stay_distinct:
  assumes "target_groups m = Some gs"
    and "distinct gs"
  shows "\<exists>gs'. target_groups (run_calls E cs m) = Some gs' \<and> distinct gs'"
  using assms
proof (induction cs arbitrary: m gs)
  case Nil
  then show ?case by simp
next
  case (Cons c cs)
  have "\<exists>gs1. target_groups (run_call E c m) = Some gs1 \<and> distinct gs1"
  proof (cases c)
    case (Add g)
    with add_group_listener_groups [OF Cons.prems(1), of E g] Cons.prems(2)
    show ?thesis by auto
  next
    case (Remove g)
    with remove_group_listener_groups [OF Cons.prems(1), of E g] Cons.prems(2)
    show ?thesis by auto
  qed
  then obtain gs1 where "target_groups (run_call E c m) = Some gs1" and "distinct gs1"
    by blast
  then show ?case using Cons.IH by simp
qed

theorem target_groups_stay_distinct_witness:
  "target_groups fresh = Some [] \<and> distinct ([] :: json list) \<and>
   (\<exists>gs'. target_groups
       (run_calls (mini_env yes_api)
          [Add (str ''a''), Add (str ''b''), Add (str ''a''), Remove (str ''a''),
           Add (str ''a''), Remove (str ''c'')] fresh) = Some gs' \<and> distinct gs')"
proof -
  have t: "target_groups fresh = Some []"
    by (simp add: target_groups_def fresh_def default_config_def str_def)
  have d: "distinct ([] :: json list)" by simp
  from target_groups_stay_distinct [OF t d] t d show ?thesis by blast
qed

lemma run_calls_example:
  "target_groups
       (run_calls (mini_env yes_api)
          [Add (str ''a''), Add (str ''b''), Add (str ''a''), Remove (str ''a''),
           Add (str ''a''), Remove (str ''c'')] fresh) = Some [JStr (str ''b''), JStr (str ''a'')]"
  by (simp add: add_group_listener_def remove_group_listener_def fresh_def default_config_def
      target_groups_def save_config_def dump_json_def write_json_def str_def surrogate_def)

section \<open>The codec gives every value back\<close>

text \<open>
  The decoder reads back what the encoder writes, for every value whose dicts have
  each key once. The proof follows the encoder: each piece of text it writes is read by
  the matching branch of the decoder, which stops at the comma or the line break that
  follows.
\<close>

subsection \<open>White space\<close>

lemma skip_ws_newline [simp]: "skip_ws (newline d @ s) = skip_ws s"
  by (induction d) (simp_all add: skip_ws_def newline_def json_ws_def)

lemma skip_ws_space [simp]: "skip_ws (32 # s) = skip_ws s"
  by (simp add: skip_ws_def json_ws_def)

lemma skip_ws_other: "\<not> json_ws c \<Longrightarrow> skip_ws (c # s) = c # s"
  by (simp add: skip_ws_def)

lemma newline_head: "\<exists>r. newline d = 10 # r"
  by (simp add: newline_def)

subsection \<open>Numbers\<close>

lemma digits_value_snoc: "digits_value (ds @ [d]) = 10 * digits_value ds + (d - 48)"
  by (simp add: digits_value_def)

lemma digits_shape:
  "(n = 0 \<and> digits n = [48]) \<or>
   (n > 0 \<and> (\<exists>d ds. digits n = d # ds \<and> 49 \<le> d \<and> d \<le> 57 \<and> list_all is_digit ds))"
proof (induction n rule: digits.induct)
  case (1 n)
  show ?case
  proof (cases "n < 10")
    case True
    then have "digits n = [48 + n]" by (subst digits.simps) simp
    with True show ?thesis by (cases "n = 0") (auto simp: is_digit_def)
  next
    case False
    with 1 have "\<exists>d ds. digits (n div 10) = d # ds \<and> 49 \<le> d \<and> d \<le> 57 \<and> list_all is_digit ds"
      by auto
    then obtain d ds where "digits (n div 10) = d # ds" "49 \<le> d" "d \<le> 57" "list_all is_digit ds"
      by blast
    with False show ?thesis
      by (subst digits.simps) (auto simp: is_digit_def)
  qed
qed

lemma digits_value_digits: "digits_value (digits n) = n"
proof (induction n rule: digits.induct)
  case (1 n)
  show ?case
  proof (cases "n < 10")
    case True
    then have "digits n = [48 + n]" by (subst digits.simps) simp
    then show ?thesis by (simp add: digits_value_def)
  next
    case False
    with 1 have "digits_value (digits (n div 10)) = n div 10" by simp
    with False show ?thesis
      by (subst digits.simps) (simp add: digits_value_snoc)
  qed
qed

lemma takeWhile_digits:
  assumes "list_all is_digit ds" and "delimited rest"
  shows "takeWhile is_digit (ds @ rest) = ds" and "dropWhile is_digit (ds @ rest) = rest"
proof -
  from assms(2) have "takeWhile is_digit rest = []" "dropWhile is_digit rest = rest"
    by (cases rest; auto simp: delimited_def is_digit_def)+
  with assms(1) show "takeWhile is_digit (ds @ rest) = ds" "dropWhile is_digit (ds @ rest) = rest"
    by (simp_all add: list_all_iff takeWhile_append2 dropWhile_append2)
qed

lemma scan_nat_digits:
  assumes "delimited rest"
  shows "scan_nat (digits n @ rest) = Some (n, rest)"
proof -
  from digits_shape [of n] show ?thesis
  proof
    assume "n = 0 \<and> digits n = [48]"
    then have d: "digits n = [48]" and z: "n = 0" by blast+
    show ?thesis unfolding d scan_nat_def using z by simp
  next
    assume "n > 0 \<and> (\<exists>d ds. digits n = d # ds \<and> 49 \<le> d \<and> d \<le> 57 \<and> list_all is_digit ds)"
    then obtain d ds where d: "digits n = d # ds" "49 \<le> d" "d \<le> 57" "list_all is_digit ds"
      by blast
    from digits_value_digits [of n] d(1) have "digits_value (d # ds) = n" by simp
    with d takeWhile_digits [OF d(4) assms] show ?thesis
      by (simp add: scan_nat_def)
  qed
qed

lemma scan_int_dump:
  assumes "delimited rest"
  shows "scan_int (dump_value depth (JInt i) @ rest) = Some (i, rest)"
proof -
  have after: "(case rest of [] \<Rightarrow> Some (j, rest)
               | x # _ \<Rightarrow> if x = 46 \<or> x = 101 \<or> x = 69 then None else Some (j, rest))
              = Some (j, rest)" for j :: int
    using assms by (cases rest) (auto simp: delimited_def)
  show ?thesis
  proof (cases "i < 0")
    case True
    with scan_nat_digits [OF assms, of "nat (- i)"] after [of i] show ?thesis
      by (simp add: scan_int_def)
  next
    case False
    from digits_shape [of "nat i"] obtain d ds where d: "digits (nat i) = d # ds" "48 \<le> d" "d \<le> 57"
      by auto
    then have "d \<noteq> 45" by simp
    with False d scan_nat_digits [OF assms, of "nat i"] after [of i] show ?thesis
      by (simp add: scan_int_def)
  qed
qed

subsection \<open>Strings\<close>

lemma hex_digit_hex_char: "d < 16 \<Longrightarrow> hex_digit (hex_char d) = Some d"
  by (auto simp: hex_digit_def hex_char_def)

lemma hex4_control: "c < 32 \<Longrightarrow> hex4 48 48 (hex_char (c div 16)) (hex_char (c mod 16)) = Some c"
proof -
  assume c: "c < 32"
  then have "c div 16 < 16" "c mod 16 < 16" by auto
  then have h: "hex_digit (hex_char (c div 16)) = Some (c div 16)"
    "hex_digit (hex_char (c mod 16)) = Some (c mod 16)"
    by (simp_all add: hex_digit_hex_char)
  have z: "hex_digit 48 = Some 0" by (simp add: hex_digit_def)
  from c show ?thesis by (simp add: hex4_def h z)
qed

lemma scan_string_escape:
  "scan_string (escape c @ t) =
     (case scan_string t of None \<Rightarrow> None | Some (s, r) \<Rightarrow> Some (c # s, r))"
proof -
  consider "c = 34" | "c = 92" | "c = 10" | "c = 13" | "c = 9" | "c = 8" | "c = 12"
    | "c < 32" "c \<notin> {10, 13, 9, 8, 12}" | "c \<ge> 32" "c \<noteq> 34" "c \<noteq> 92"
    by fastforce
  then show ?thesis
  proof cases
    case 8
    then show ?thesis
      by (simp add: escape_def hex4_control)
  next
    case 9
    then show ?thesis by (simp add: escape_def)
  qed (auto simp: escape_def unescape_def)
qed

lemma scan_string_quote:
  "scan_string (concat (map escape s) @ 34 # rest) = Some (s, rest)"
  by (induction s) (simp_all add: scan_string_escape)


subsection \<open>Values\<close>

lemma dict_set_new: "k \<notin> fst ` set acc \<Longrightarrow> dict_set k v acc = acc @ [(k, v)]"
  by (induction acc) auto

lemma dump_value_head:
  "\<exists>c r. dump_value d v = c # r \<and> \<not> json_ws c \<and> c \<noteq> 93 \<and> c \<noteq> 125"
proof (cases v)
  case (JInt i)
  from digits_shape [of "nat i"] digits_shape [of "nat (- i)"]
  obtain a as b bs where "digits (nat i) = a # as" "48 \<le> a" "digits (nat (- i)) = b # bs"
    by auto
  then show ?thesis
    using JInt digits_shape [of "nat i"] by (auto simp: json_ws_def)
qed (auto simp: str_def quote_def json_ws_def)

lemma dump_items_head:
  "xs \<noteq> [] \<Longrightarrow> \<exists>c r. dump_items d xs = c # r \<and> \<not> json_ws c \<and> c \<noteq> 93 \<and> c \<noteq> 125"
  using dump_value_head [of d "hd xs"] by (cases xs) auto

lemma dump_members_head:
  "kvs \<noteq> [] \<Longrightarrow> \<exists>r. dump_members d kvs = 34 # r"
  by (cases kvs) (auto simp: quote_def)

lemma skip_ws_dump_value [simp]: "skip_ws (dump_value d v @ s) = dump_value d v @ s"
  using dump_value_head [of d v] by (auto simp: skip_ws_other)

lemma skip_ws_dump_items [simp]:
  "xs \<noteq> [] \<Longrightarrow> skip_ws (dump_items d xs @ s) = dump_items d xs @ s"
  using dump_items_head [of xs d] by (auto simp: skip_ws_other)

lemma skip_ws_dump_members [simp]:
  "kvs \<noteq> [] \<Longrightarrow> skip_ws (dump_members d kvs @ s) = dump_members d kvs @ s"
  using dump_members_head [of kvs d] by (auto simp: skip_ws_other json_ws_def)

lemma skip_ws_delimiter [simp]:
  "skip_ws (93 # s) = 93 # s" "skip_ws (125 # s) = 125 # s" "skip_ws (44 # s) = 44 # s"
  "skip_ws (58 # s) = 58 # s"
  by (simp_all add: skip_ws_def json_ws_def)

lemma parse_scalar:
  assumes "delimited rest"
  shows "parse_value (f # fuel) (dump_value d JNull @ rest) = Some (JNull, rest)"
    and "parse_value (f # fuel) (dump_value d (JBool b) @ rest) = Some (JBool b, rest)"
    and "parse_value (f # fuel) (dump_value d (JStr s) @ rest) = Some (JStr s, rest)"
    and "parse_value (f # fuel) (dump_value d (JInt i) @ rest) = Some (JInt i, rest)"
proof -
  show "parse_value (f # fuel) (dump_value d JNull @ rest) = Some (JNull, rest)"
    by (simp add: str_def)
  show "parse_value (f # fuel) (dump_value d (JBool b) @ rest) = Some (JBool b, rest)"
    by (simp add: str_def)
  show "parse_value (f # fuel) (dump_value d (JStr s) @ rest) = Some (JStr s, rest)"
    by (simp add: quote_def scan_string_quote)
  obtain c r where c: "dump_value d (JInt i) = c # r" "c = 45 \<or> (48 \<le> c \<and> c \<le> 57)"
    using digits_shape [of "nat i"] by (cases "i < 0") auto
  then have "c \<noteq> 34" "c \<noteq> 123" "c \<noteq> 91" "c \<noteq> 110" "c \<noteq> 116" "c \<noteq> 102"
    by auto
  with c(1) scan_int_dump [OF assms, of d i]
  show "parse_value (f # fuel) (dump_value d (JInt i) @ rest) = Some (JInt i, rest)"
    by (simp add: str_def del: dump_value.simps)
qed

lemma parse_dump:
  "distinct_keys v \<Longrightarrow> nesting v \<le> length fuel \<Longrightarrow> delimited rest \<Longrightarrow>
     parse_value fuel (dump_value d v @ rest) = Some (v, rest)"
  "xs \<noteq> [] \<Longrightarrow> distinct_keys_items xs \<Longrightarrow> nesting_items xs \<le> length fuel \<Longrightarrow>
     parse_items fuel (dump_items d xs @ newline d' @ 93 # rest) = Some (xs, rest)"
  "kvs \<noteq> [] \<Longrightarrow> distinct (map fst kvs) \<Longrightarrow> fst ` set acc \<inter> fst ` set kvs = {} \<Longrightarrow>
     distinct_keys_members kvs \<Longrightarrow> nesting_members kvs \<le> length fuel \<Longrightarrow>
     parse_members fuel (dump_members d kvs @ newline d' @ 125 # rest) acc
       = Some (acc @ kvs, rest)"
proof (induction d v and d xs and d kvs
    arbitrary: fuel rest and fuel rest d' and fuel rest d' acc
    rule: dump_value_dump_items_dump_members.induct)
  case (1 depth)
  then obtain f fuel' where "fuel = f # fuel'" by (cases fuel) auto
  with 1 show ?case by (simp only: parse_scalar)
next
  case (2 depth b)
  then obtain f fuel' where "fuel = f # fuel'" by (cases fuel) auto
  with 2 show ?case by (simp only: parse_scalar)
next
  case (3 depth i)
  then obtain f fuel' where "fuel = f # fuel'" by (cases fuel) auto
  with 3 show ?case by (simp only: parse_scalar)
next
  case (4 depth s)
  then obtain f fuel' where "fuel = f # fuel'" by (cases fuel) auto
  with 4 show ?case by (simp only: parse_scalar)
next
  case (5 depth xs)
  from 5(3) obtain f fuel' where f: "fuel = f # fuel'" by (cases fuel) auto
  show ?case
  proof (cases "xs = []")
    case True
    with f show ?thesis by (simp add: str_def)
  next
    case False
    from dump_items_head [OF False, of "Suc depth"] obtain c r
      where c: "dump_items (Suc depth) xs = c # r" "\<not> json_ws c" "c \<noteq> 93" by blast
    from 5 f False have
      "parse_items fuel' (dump_items (Suc depth) xs @ newline depth @ 93 # rest) = Some (xs, rest)"
      by simp
    with f False c show ?thesis by (simp add: skip_ws_other)
  qed
next
  case (6 depth kvs)
  from 6(3) obtain f fuel' where f: "fuel = f # fuel'" by (cases fuel) auto
  show ?case
  proof (cases "kvs = []")
    case True
    with f show ?thesis by (simp add: str_def)
  next
    case False
    from dump_members_head [OF False, of "Suc depth"] obtain r
      where c: "dump_members (Suc depth) kvs = 34 # r" by blast
    from 6 f False have
      "parse_members fuel' (dump_members (Suc depth) kvs @ newline depth @ 125 # rest) []
         = Some ([] @ kvs, rest)"
      by simp
    with f False c show ?thesis by (simp add: skip_ws_other json_ws_def)
  qed
next
  case (7 depth)
  then show ?case by simp
next
  case (8 depth x xs)
  from 8(5) obtain f fuel' where f: "fuel = f # fuel'" by (cases fuel) auto
  with 8(5) have n: "nesting x \<le> length fuel'" "nesting_items xs \<le> length fuel'" by simp_all
  from 8(4) have k: "distinct_keys x" "distinct_keys_items xs" by simp_all
  obtain t where t: "newline d' = 10 # t" using newline_head by blast
  show ?case
  proof (cases "xs = []")
    case True
    have "delimited (newline d' @ 93 # rest)" by (simp add: delimited_def t)
    from 8(1) [OF k(1) n(1) this] True f show ?thesis
      by (simp del: skip_ws_newline) simp
  next
    case False
    have "delimited (44 # newline depth @ dump_items depth xs @ newline d' @ 93 # rest)"
      by (simp add: delimited_def)
    from 8(1) [OF k(1) n(1) this] 8(2) [OF False False k(2) n(2), of d' rest] False f
    show ?thesis by simp
  qed
next
  case (9 depth)
  then show ?case by simp
next
  case (10 depth k v kvs)
  from 10(7) obtain f fuel' where f: "fuel = f # fuel'" by (cases fuel) auto
  with 10(7) have n: "nesting v \<le> length fuel'" "nesting_members kvs \<le> length fuel'"
    by simp_all
  from 10(6) have dk: "distinct_keys v" "distinct_keys_members kvs" by simp_all
  from 10(4,5) have new: "k \<notin> fst ` set acc" by auto
  obtain t where t: "newline d' = 10 # t" using newline_head by blast
  let ?acc = "acc @ [(k, v)]"
  show ?case
  proof (cases "kvs = []")
    case True
    have "delimited (newline d' @ 125 # rest)" by (simp add: delimited_def t)
    from 10(1) [OF dk(1) n(1) this] True f new show ?thesis
      by (simp add: quote_def scan_string_quote dict_set_new)
  next
    case False
    have d: "delimited (44 # newline depth @ dump_members depth kvs @ newline d' @ 125 # rest)"
      by (simp add: delimited_def)
    from 10(4,5) have "distinct (map fst kvs)" "fst ` set ?acc \<inter> fst ` set kvs = {}"
      by auto
    from 10(2) [OF False False this dk(2) n(2), of d' rest]
    have "parse_members fuel' (dump_members depth kvs @ newline d' @ 125 # rest) ?acc
            = Some (?acc @ kvs, rest)" .
    with 10(1) [OF dk(1) n(1) d] False f new show ?thesis
      by (simp add: quote_def scan_string_quote dict_set_new)
  qed
qed


lemma newline_length: "1 \<le> length (newline d)"
  by (simp add: newline_def)

lemma quote_length: "2 \<le> length (quote s)"
  by (simp add: quote_def)

lemma nesting_dump:
  "nesting v \<le> length (dump_value d v)"
  "nesting_items xs \<le> length (dump_items d xs) + 1"
  "nesting_members kvs \<le> length (dump_members d kvs) + 1"
proof (induction d v and d xs and d kvs rule: dump_value_dump_items_dump_members.induct)
  case (3 depth i)
  from dump_value_head [of depth "JInt i"] show ?case by auto
next
  case (4 depth s)
  from quote_length [of s] show ?case by simp
next
  case (5 depth xs)
  with newline_length [of depth] newline_length [of "Suc depth"] show ?case
    by (auto simp: str_def)
next
  case (6 depth kvs)
  with newline_length [of depth] newline_length [of "Suc depth"] show ?case
    by (auto simp: str_def)
next
  case (8 depth x xs)
  with newline_length [of depth] show ?case by auto
next
  case (10 depth k v kvs)
  with newline_length [of depth] quote_length [of k] show ?case by auto
qed (simp_all add: str_def)

lemma mini_loads_dumps: "distinct_keys v \<Longrightarrow> mini_loads (mini_dumps v) = Some v"
proof -
  assume k: "distinct_keys v"
  have "nesting v \<le> length (0 # dump_value 0 v)"
    using nesting_dump(1) [of v 0] by simp
  from parse_dump(1) [OF k this, of "[]" 0]
  have p: "parse_value (0 # dump_value 0 v) (dump_value 0 v) = Some (v, [])"
    by (simp add: delimited_def)
  have w: "skip_ws (dump_value 0 v) = dump_value 0 v"
    using skip_ws_dump_value [of 0 v "[]"] by simp
  show ?thesis
    unfolding mini_loads_def mini_dumps_def w p by (simp add: skip_ws_def)
qed

lemma mini_codec_ok: "distinct_keys v \<Longrightarrow> codec_ok (mini_env reply) v"
  by (simp add: codec_ok_def mini_env_def mini_loads_dumps)

text \<open>The pieces that \<open>json.dump\<close> writes make up the text of \<open>json.dumps\<close>.\<close>

lemma chunks_dump:
  "concat (chunk_value d v) = dump_value d v"
  "xs \<noteq> [] \<Longrightarrow> concat (chunk_items d buf xs) = buf @ dump_items d xs"
  "kvs \<noteq> [] \<Longrightarrow> concat (chunk_members d first kvs) =
     (if first then [] else [44] @ newline d) @ dump_members d kvs"
proof (induction d v and d buf xs and d first kvs rule: chunk_value_chunk_items_chunk_members.induct)
  case (8 depth buf x xs)
  then show ?case by (cases xs; cases x) (simp_all add: str_def)
next
  case (10 depth first k v kvs)
  then show ?case by (cases kvs) simp_all
qed (simp_all add: str_def)

section \<open>The configuration round trip\<close>

text \<open>
  C8. \<open>save_config(config)\<close> followed by \<open>load_config()\<close> gives \<open>config\<close> back, for every
  config other than \<open>None\<close> that holds no surrogate code point, in a string or in a key:
  the write does not raise, and \<open>load_config\<close> returns the value and changes nothing. This
  holds with the codec of this development on every such value, and with any codec that
  gives the value back. On a missing configuration file, and on one that does not
  decode, \<open>load_config\<close> returns the default configuration, having written it to the
  configuration file; the default has no target group, the five keywords of the source
  (written by their code points: \<open>U+901A U+77E5\<close>, \<open>U+91CD U+8981\<close>, \<open>U+7D27 U+6025\<close>,
  \<open>U+63D0 U+9192\<close>, \<open>U+5FC5 U+770B\<close>) and \<open>enable_alert\<close> true.
\<close>

theorem config_round_trip:
  "(cfg \<noteq> JNull \<and> surrogate_free cfg \<and> distinct_keys cfg \<longrightarrow>
      fst (save_config (mini_env reply) cfg m) = Inr () \<and>
      load_config (mini_env reply) (snd (save_config (mini_env reply) cfg m))
        = (Inr cfg, snd (save_config (mini_env reply) cfg m))) \<and>
   (cfg \<noteq> JNull \<and> surrogate_free cfg \<and> codec_ok E cfg \<longrightarrow>
      fst (save_config E cfg m) = Inr () \<and>
      load_config E (snd (save_config E cfg m)) = (Inr cfg, snd (save_config E cfg m))) \<and>
   (files m CONFIG_FILE = None \<or>
      (\<exists>text. files m CONFIG_FILE = Some text \<and> json_loads E text = None) \<longrightarrow>
      fst (load_config E m) = Inr default_config \<and>
      files (snd (load_config E m)) CONFIG_FILE = Some (json_dumps E default_config) \<and>
      writes (snd (load_config E m)) = writes m @ [(CONFIG_FILE, json_dumps E default_config)]) \<and>
   default_config =
     JObj [(str ''target_groups'', JArr []),
           (str ''keywords'',
              JArr [JStr [36890, 30693], JStr [37325, 35201], JStr [32039, 24613],
                    JStr [25552, 37266], JStr [24517, 30475]]),
           (str ''enable_alert'', JBool True)]"
proof -
  have rt: "fst (save_config E' cfg m) = Inr () \<and>
      load_config E' (snd (save_config E' cfg m)) = (Inr cfg, snd (save_config E' cfg m))"
    if "cfg \<noteq> JNull" "surrogate_free cfg" "codec_ok E' cfg" for E'
    using that
    by (simp add: load_config_def read_json_def save_config_def dump_json_def write_json_def
        codec_ok_def)
  have mini: "fst (save_config (mini_env reply) cfg m) = Inr () \<and>
      load_config (mini_env reply) (snd (save_config (mini_env reply) cfg m))
        = (Inr cfg, snd (save_config (mini_env reply) cfg m))"
    if "cfg \<noteq> JNull" "surrogate_free cfg" "distinct_keys cfg"
    using that rt [of "mini_env reply"] mini_codec_ok [of cfg reply] by blast
  have ds: "surrogate_free default_config"
    by (simp add: default_config_def str_def surrogate_def)
  have dn: "default_config \<noteq> JNull"
    by (simp add: default_config_def)
  have dflt: "fst (load_config E m) = Inr default_config \<and>
      files (snd (load_config E m)) CONFIG_FILE = Some (json_dumps E default_config) \<and>
      writes (snd (load_config E m)) = writes m @ [(CONFIG_FILE, json_dumps E default_config)]"
    if "files m CONFIG_FILE = None \<or>
      (\<exists>text. files m CONFIG_FILE = Some text \<and> json_loads E text = None)"
    using that ds dn
    by (auto simp: load_config_def read_json_def save_config_def dump_json_def write_json_def)
  have dc: "default_config =
     JObj [(str ''target_groups'', JArr []),
           (str ''keywords'',
              JArr [JStr [36890, 30693], JStr [37325, 35201], JStr [32039, 24613],
                    JStr [25552, 37266], JStr [24517, 30475]]),
           (str ''enable_alert'', JBool True)]"
    by (simp add: default_config_def)
  from mini rt [of E] dflt dc show ?thesis by blast
qed

theorem config_round_trip_witness:
  "team_config \<noteq> JNull \<and> surrogate_free team_config \<and> distinct_keys team_config \<and>
   codec_ok (mini_env yes_api) team_config \<and>
   save_config (mini_env yes_api) team_config fresh =
     (Inr (),
      fresh\<lparr>files := [CONFIG_FILE \<mapsto> mini_dumps team_config],
            writes := [(CONFIG_FILE, mini_dumps team_config)]\<rparr>) \<and>
   fst (load_config (mini_env yes_api)
          (snd (save_config (mini_env yes_api) team_config fresh))) = Inr team_config \<and>
   files fresh CONFIG_FILE = None \<and>
   fst (load_config (mini_env yes_api) fresh) = Inr default_config \<and>
   files (snd (load_config (mini_env yes_api) fresh)) CONFIG_FILE
     = Some (mini_dumps default_config) \<and>
   files malformed CONFIG_FILE = Some (str ''{oops'') \<and>
   mini_loads (str ''{oops'') = None \<and>
   fst (load_config (mini_env yes_api) malformed) = Inr default_config \<and>
   files (snd (load_config (mini_env yes_api) malformed)) CONFIG_FILE
     = Some (mini_dumps default_config)"
proof -
  let ?E = "mini_env yes_api"
  have h1: "team_config \<noteq> JNull"
    by (simp add: team_config_def)
  have h2: "surrogate_free team_config"
    by (simp add: team_config_def str_def surrogate_def)
  have h3: "distinct_keys team_config"
    by (simp add: team_config_def str_def)
  have h4: "codec_ok ?E team_config"
    by (simp add: codec_ok_def mini_env_def team_config_def codec_simps)
  have s: "save_config ?E team_config fresh =
     (Inr (),
      fresh\<lparr>files := [CONFIG_FILE \<mapsto> mini_dumps team_config],
            writes := [(CONFIG_FILE, mini_dumps team_config)]\<rparr>)"
    using h1 h2
    by (simp add: save_config_def dump_json_def write_json_def mini_env_def fresh_def)
  have f: "files fresh CONFIG_FILE = None"
    by (simp add: fresh_def)
  have g: "files malformed CONFIG_FILE = Some (str ''{oops'')"
    by (simp add: malformed_def fresh_def)
  have p: "mini_loads (str ''{oops'') = None"
    by (simp add: codec_simps)
  have e: "json_loads ?E = mini_loads" "json_dumps ?E = mini_dumps"
    by (simp_all add: mini_env_def)
  from config_round_trip
    [where cfg = team_config and E = ?E and m = fresh and reply = yes_api] h1 h2 h3 f
  have a: "fst (load_config ?E (snd (save_config ?E team_config fresh))) = Inr team_config"
    and b: "fst (load_config ?E fresh) = Inr default_config"
    and c: "files (snd (load_config ?E fresh)) CONFIG_FILE = Some (mini_dumps default_config)"
    by (simp_all add: e)
  from config_round_trip
    [where cfg = team_config and E = ?E and m = malformed and reply = yes_api] g p
  have d: "fst (load_config ?E malformed) = Inr default_config"
    and d': "files (snd (load_config ?E malformed)) CONFIG_FILE
               = Some (mini_dumps default_config)"
    by (simp_all add: e)
  from h1 h2 h3 h4 s a f b c g p d d' show ?thesis by simp
qed

text \<open>
  C8, the values left out. The claim is stated for every config value, and fails for
  two. A configuration with a group name that is a lone surrogate cannot be encoded
  in UTF-8: \<open>save_config\<close> raises \<open>UnicodeEncodeError\<close> with the file cut after
  \<open>"target_groups": \<close>, the file no longer decodes, and \<open>load_config\<close> returns the default
  configuration, although the codec itself gives this value back. And
  \<open>save_config(None)\<close> writes \<open>self.config\<close>, so \<open>load_config\<close> returns that and not
  \<open>None\<close>.
\<close>

theorem config_round_trip_counterexample:
  "codec_ok (mini_env yes_api) unwritable_config \<and>
   save_config (mini_env yes_api) unwritable_config fresh =
     (Inl UnicodeEncodeError,
      fresh\<lparr>files := [CONFIG_FILE \<mapsto> truncated], writes := [(CONFIG_FILE, truncated)]\<rparr>) \<and>
   json_loads (mini_env yes_api) truncated = None \<and>
   fst (load_config (mini_env yes_api)
          (snd (save_config (mini_env yes_api) unwritable_config fresh))) = Inr default_config \<and>
   default_config \<noteq> unwritable_config \<and>
   fst (save_config (mini_env yes_api) JNull fresh) = Inr () \<and>
   fst (load_config (mini_env yes_api) (snd (save_config (mini_env yes_api) JNull fresh)))
     = Inr default_config \<and>
   default_config \<noteq> JNull"
proof -
  let ?E = "mini_env yes_api"
  have ok: "codec_ok ?E unwritable_config"
    by (simp add: codec_ok_def mini_env_def unwritable_config_def codec_simps)
  have p: "mini_partial unwritable_config = truncated"
    by (simp add: mini_partial_def mini_chunks_def unwritable_config_def truncated_def
        surrogate_def quote_def escape_def newline_def str_def)
  have s: "save_config ?E unwritable_config fresh =
     (Inl UnicodeEncodeError,
      fresh\<lparr>files := [CONFIG_FILE \<mapsto> truncated], writes := [(CONFIG_FILE, truncated)]\<rparr>)"
    using p
    by (simp add: save_config_def dump_json_def mini_env_def unwritable_config_def
        surrogate_def fresh_def)
  have t: "json_loads ?E truncated = None"
    by (simp add: mini_env_def truncated_def codec_simps)
  have ds: "surrogate_free default_config"
    by (simp add: default_config_def str_def surrogate_def)
  have dn: "default_config \<noteq> JNull"
    by (simp add: default_config_def)
  have "fst (load_config ?E
          (fresh\<lparr>files := [CONFIG_FILE \<mapsto> truncated], writes := [(CONFIG_FILE, truncated)]\<rparr>))
        = Inr default_config"
    using t ds dn
    by (simp add: load_config_def read_json_def save_config_def dump_json_def)
  then have l: "fst (load_config ?E (snd (save_config ?E unwritable_config fresh)))
        = Inr default_config"
    by (simp add: s)
  have n: "default_config \<noteq> unwritable_config" "default_config \<noteq> JNull"
    by (simp_all add: default_config_def unwritable_config_def)
  have dok: "codec_ok ?E default_config"
    by (simp add: codec_ok_def mini_env_def default_config_def codec_simps)
  have sn: "save_config ?E JNull fresh = (Inr (), write_json ?E CONFIG_FILE default_config fresh)"
    using ds by (simp add: save_config_def dump_json_def fresh_def)
  have "fst (load_config ?E (write_json ?E CONFIG_FILE default_config fresh)) = Inr default_config"
    using dok
    by (simp add: load_config_def read_json_def write_json_def codec_ok_def)
  then have ln: "fst (load_config ?E (snd (save_config ?E JNull fresh))) = Inr default_config"
    by (simp add: sn)
  from ok s t l n sn ln show ?thesis by simp
qed

end
